theory Spec2Isabelle
  imports Main "HOL-Library.Multiset"
begin

section \<open>The URL table of the ol3-viewer plugin\<close>

text \<open>
  The module \<^verbatim>\<open>plugin/ol3-viewer/urls.py\<close> is a declaration in the routing language
  of its web framework:
  \<^verbatim>\<open>
  from django.urls import patterns
  from django.urls import path
  from django.views.generic import TemplateView

  import views

  urlpatterns = [
      path(r"<int:iid>/", views.index, name="ol3-viewer-index"),
      path(r"plugin/<int:iid>/", views.plugin, name="ol3-viewer-plugin"),
      path(
          r"plugin-debug/<int:iid>/", views.plugin_debug, name="ol3-viewer-plugin-debug"
      ),
  ]
  \<close>
  The list is embedded as it is written (section \<open>The module\<close>). What a route string
  means is fixed by the framework, whose code is not part of the repository: the sections
  before it embed the framework functions the table is read by, following
  \<^verbatim>\<open>django/urls/converters.py\<close> and \<^verbatim>\<open>django/urls/resolvers.py\<close>
  (\<^verbatim>\<open>_route_to_regex\<close>, \<^verbatim>\<open>RoutePattern.match\<close>, \<^verbatim>\<open>URLResolver.resolve\<close>,
  \<^verbatim>\<open>URLResolver._reverse_with_prefix\<close>). Paths and generated URLs are relative to the place
  where this table is mounted.
\<close>

subsection \<open>Handlers, errors, Python values\<close>

text \<open>
  The three callables the table refers to. Their bodies are in \<^verbatim>\<open>views.py\<close>, which the
  table only names; a handler is an opaque reference here.
\<close>

datatype view = views_index | views_plugin | views_plugin_debug

datatype error = ImproperlyConfigured | Resolver404 | NoReverseMatch

text \<open>The values a captured parameter can have: Python's unbounded \<^verbatim>\<open>int\<close>, or \<^verbatim>\<open>str\<close>.\<close>

datatype pyval = PyInt int | PyStr string

subsection \<open>Decimal numerals: \<^verbatim>\<open>int(text)\<close> and \<^verbatim>\<open>str(n)\<close>\<close>

text \<open>The character class \<^verbatim>\<open>[0-9]\<close>: the code points 48 to 57.\<close>

definition isdigit :: "char \<Rightarrow> bool" where
  "isdigit c = (48 \<le> (of_char c :: nat) \<and> (of_char c :: nat) \<le> 57)"

definition digit_val :: "char \<Rightarrow> nat" where
  "digit_val c = of_char c - 48"


definition decimal :: "string \<Rightarrow> nat" where
  "decimal ds = foldl (\<lambda>acc c. 10 * acc + digit_val c) 0 ds"




subsection \<open>Path converters (\<^verbatim>\<open>django/urls/converters.py\<close>)\<close>

text \<open>
  \<^verbatim>\<open>
  class IntConverter:
      regex = "[0-9]+"
      def to_python(self, value): return int(value)
      def to_url(self, value): return str(value)

  class StringConverter:
      regex = "[^/]+"
      def to_python(self, value): return value
      def to_url(self, value): return value
  \<close>
  The registry is modelled with the converter the table names (\<^verbatim>\<open>int\<close>) and the one
  a parameter without a converter gets (\<^verbatim>\<open>str\<close>); \<^verbatim>\<open>path\<close>, \<^verbatim>\<open>slug\<close> and
  \<^verbatim>\<open>uuid\<close> are not in it. \<open>None\<close> is Python's \<^verbatim>\<open>KeyError\<close>.
\<close>

datatype converter = IntConverter | StringConverter

definition get_converter :: "string \<Rightarrow> converter option" where
  "get_converter raw_converter =
     (if raw_converter = ''int'' then Some IntConverter
      else if raw_converter = ''str'' then Some StringConverter
      else None)"

text \<open>Whether a text is a full match of the converter's \<^verbatim>\<open>regex\<close>.\<close>

fun converter_regex :: "converter \<Rightarrow> string \<Rightarrow> bool" where
  "converter_regex IntConverter t = (t \<noteq> [] \<and> list_all isdigit t)"
| "converter_regex StringConverter t = (t \<noteq> [] \<and> list_all (\<lambda>c. c \<noteq> CHR ''/'') t)"

text \<open>
  \<open>None\<close> is \<^verbatim>\<open>ValueError\<close>. \<^verbatim>\<open>int\<close> is only ever applied to a match of
  \<^verbatim>\<open>[0-9]+\<close>, where it is the decimal reading (leading zeros allowed); on any other text
  the model raises. The interpreter's configurable limit on the number of digits
  \<^verbatim>\<open>int\<close> converts is not modelled: integers are unbounded.
\<close>

fun to_python :: "converter \<Rightarrow> string \<Rightarrow> pyval option" where
  "to_python IntConverter t =
     (if t \<noteq> [] \<and> list_all isdigit t then Some (PyInt (int (decimal t))) else None)"
| "to_python StringConverter t = Some (PyStr t)"


subsection \<open>Compiled routes: the regular expressions \<^verbatim>\<open>_route_to_regex\<close> builds\<close>

text \<open>
  \<^verbatim>\<open>_route_to_regex\<close> joins a list \<^verbatim>\<open>parts\<close> of four kinds of text: \<^verbatim>\<open>'^'\<close>,
  \<^verbatim>\<open>re.escape(literal)\<close>, \<^verbatim>\<open>'(?P<name>' + converter.regex + ')'\<close> and, for an endpoint,
  the end anchor. The anchor is \<^verbatim>\<open>'$'\<close> in the framework's earlier releases and
  \<^verbatim>\<open>'\Z'\<close> in its later ones; the model takes it as a parameter.
\<close>

datatype end_anchor = Dollar | End_of_string

datatype rx_part = Caret | Escaped string | Named_group string converter | End_anchor end_anchor

type_synonym regex = "rx_part list"

definition newline :: char where
  "newline = CHR 0x0A"

fun first_some :: "'a option list \<Rightarrow> 'a option" where
  "first_some [] = None"
| "first_some (None # xs) = first_some xs"
| "first_some (Some x # xs) = Some x"

text \<open>
  Matching at one position, with backtracking. \<open>at0\<close> says that the position is the start
  of the subject (where \<^verbatim>\<open>^\<close> matches). A group is greedy: the longest text the
  converter's expression accepts is tried first, then the shorter ones. \<^verbatim>\<open>$\<close> matches
  at the end and before a newline that ends the subject; \<^verbatim>\<open>\Z\<close> only at the end. The
  result is \<^verbatim>\<open>groupdict()\<close>.
\<close>

fun match_here :: "regex \<Rightarrow> bool \<Rightarrow> string \<Rightarrow> (string \<times> string) list option" where
  "match_here [] at0 s = Some []"
| "match_here (Caret # ps) at0 s = (if at0 then match_here ps at0 s else None)"
| "match_here (Escaped l # ps) at0 s =
     (if take (length l) s = l then match_here ps (at0 \<and> l = []) (drop (length l) s)
      else None)"
| "match_here (Named_group n cv # ps) at0 s =
     first_some (map (\<lambda>k. if converter_regex cv (take k s)
                           then map_option ((#) (n, take k s)) (match_here ps False (drop k s))
                           else None)
                     (rev [1..<Suc (length s)]))"
| "match_here (End_anchor Dollar # ps) at0 s =
     (if s = [] \<or> s = [newline] then match_here ps at0 s else None)"
| "match_here (End_anchor End_of_string # ps) at0 s =
     (if s = [] then match_here ps at0 s else None)"

text \<open>\<^verbatim>\<open>regex.search(path)\<close>: the first position, from the left, with a match.\<close>

definition rx_search :: "regex \<Rightarrow> string \<Rightarrow> (string \<times> string) list option" where
  "rx_search r s = first_some (map (\<lambda>i. match_here r (i = 0) (drop i s)) [0..<Suc (length s)])"

subsection \<open>Parsing a route (\<^verbatim>\<open>_route_to_regex\<close>)\<close>

text \<open>
  A parameter of a route is a match of
  \<^verbatim>\<open>_PATH_PARAMETER_COMPONENT_RE = r"<(?:(?P<converter>[^>:]+):)?(?P<parameter>[^<>]+)>"\<close>.
  \<open>match_parameter\<close> reads \<^verbatim>\<open>(?P<parameter>[^<>]+)>\<close> and \<open>match_component\<close> the
  whole expression after its \<^verbatim>\<open><\<close>: first with the converter, then, when that
  fails, without. Each gives the text that follows the match.
\<close>

definition match_parameter :: "string \<Rightarrow> (string \<times> string) option" where
  "match_parameter s =
     (let p = takeWhile (\<lambda>c. c \<noteq> CHR ''<'' \<and> c \<noteq> CHR ''>'') s;
          r = dropWhile (\<lambda>c. c \<noteq> CHR ''<'' \<and> c \<noteq> CHR ''>'') s
      in if p \<noteq> [] \<and> take 1 r = ''>'' then Some (p, drop 1 r) else None)"

definition match_component :: "string \<Rightarrow> (string option \<times> string \<times> string) option" where
  "match_component s =
     (let c = takeWhile (\<lambda>x. x \<noteq> CHR ''>'' \<and> x \<noteq> CHR '':'') s;
          r = dropWhile (\<lambda>x. x \<noteq> CHR ''>'' \<and> x \<noteq> CHR '':'') s
      in case (if c \<noteq> [] \<and> take 1 r = '':'' then match_parameter (drop 1 r) else None) of
           Some (p, rest) \<Rightarrow> Some (Some c, p, rest)
         | None \<Rightarrow>
             (case match_parameter s of
                Some (p, rest) \<Rightarrow> Some (None, p, rest)
              | None \<Rightarrow> None))"

text \<open>
  The leftmost parameter of a route: the text before it, its converter (if written), its
  name, and the text after it.
\<close>

fun search_component :: "string \<Rightarrow> (string \<times> string option \<times> string \<times> string) option" where
  "search_component [] = None"
| "search_component (c # s) =
     (case (if c = CHR ''<'' then match_component s else None) of
        Some (cv, p, rest) \<Rightarrow> Some ([], cv, p, rest)
      | None \<Rightarrow> map_option (\<lambda>(b, m). (c # b, m)) (search_component s))"

text \<open>\<^verbatim>\<open>str.isidentifier\<close>, on ASCII names.\<close>

definition isalpha :: "char \<Rightarrow> bool" where
  "isalpha c = ((65 \<le> (of_char c :: nat) \<and> (of_char c :: nat) \<le> 90)
              \<or> (97 \<le> (of_char c :: nat) \<and> (of_char c :: nat) \<le> 122))"

definition isidentifier :: "string \<Rightarrow> bool" where
  "isidentifier s =
     (case s of
        [] \<Rightarrow> False
      | c # _ \<Rightarrow> \<not> isdigit c \<and> list_all (\<lambda>x. isalpha x \<or> isdigit x \<or> x = CHR ''_'') s)"

text \<open>
  The loop of \<^verbatim>\<open>_route_to_regex\<close> over the parameters of the route: the parts of the
  expression and the converter of each parameter. A parameter whose name is not an
  identifier, or whose converter is not registered, raises \<^verbatim>\<open>ImproperlyConfigured\<close>; a
  parameter without a converter gets \<^verbatim>\<open>str\<close>.
\<close>

function route_to_parts :: "string \<Rightarrow> error + (regex \<times> (string \<times> converter) list)" where
  "route_to_parts rt =
     (case search_component rt of
        None \<Rightarrow> Inr ([Escaped rt], [])
      | Some (lit, raw_converter, parameter, rest) \<Rightarrow>
          if \<not> isidentifier parameter then Inl ImproperlyConfigured
          else
            (case get_converter (case raw_converter of None \<Rightarrow> ''str'' | Some c \<Rightarrow> c) of
               None \<Rightarrow> Inl ImproperlyConfigured
             | Some cv \<Rightarrow>
                 (case route_to_parts rest of
                    Inl e \<Rightarrow> Inl e
                  | Inr (ps, cs) \<Rightarrow>
                      Inr (Escaped lit # Named_group parameter cv # ps, (parameter, cv) # cs))))"
  by pat_completeness auto
termination
proof -
  let ?P = "\<lambda>c. c \<noteq> CHR ''<'' \<and> c \<noteq> CHR ''>''"
  let ?Q = "\<lambda>x. x \<noteq> CHR ''>'' \<and> x \<noteq> CHR '':''"
  have mp: "length rest \<le> length s" if "match_parameter s = Some (p, rest)" for s p rest
  proof -
    from that have "rest = drop 1 (dropWhile ?P s)"
      by (simp add: match_parameter_def Let_def split: if_splits)
    then show ?thesis
      using length_dropWhile_le [of ?P s] by simp
  qed
  have mc: "length rest \<le> length s" if "match_component s = Some (cv, p, rest)" for s cv p rest
  proof -
    from that consider "match_parameter (drop 1 (dropWhile ?Q s)) = Some (p, rest)"
      | "match_parameter s = Some (p, rest)"
      by (auto simp: match_component_def Let_def split: if_splits option.splits)
    then show ?thesis
    proof cases
      case 1
      then have "length rest \<le> length (drop 1 (dropWhile ?Q s))"
        by (rule mp)
      then show ?thesis
        using length_dropWhile_le [of ?Q s] by simp
    next
      case 2
      then show ?thesis by (rule mp)
    qed
  qed
  have sc: "length rest < length s" if "search_component s = Some (b, cv, p, rest)" for s b cv p rest
    using that
  proof (induction s arbitrary: b)
    case Nil
    then show ?case by simp
  next
    case (Cons c s)
    show ?case
    proof (cases "if c = CHR ''<'' then match_component s else None")
      case None
      with Cons.prems obtain b' where "search_component s = Some (b', cv, p, rest)"
        by auto
      then have "length rest < length s" by (rule Cons.IH)
      then show ?thesis by simp
    next
      case (Some m)
      with Cons.prems have "match_component s = Some (cv, p, rest)"
        by (auto split: if_splits)
      then have "length rest \<le> length s" by (rule mc)
      then show ?thesis by simp
    qed
  qed
  show ?thesis
    by (relation "measure length") (auto dest: sc)
qed

declare route_to_parts.simps [simp del]

definition route_to_regex ::
  "end_anchor \<Rightarrow> string \<Rightarrow> bool \<Rightarrow> error + (regex \<times> (string \<times> converter) list)" where
  "route_to_regex a rt is_endpoint =
     (case route_to_parts rt of
        Inl e \<Rightarrow> Inl e
      | Inr (ps, cs) \<Rightarrow> Inr (Caret # ps @ (if is_endpoint then [End_anchor a] else []), cs))"

subsection \<open>\<^verbatim>\<open>path()\<close> and the URL pattern it returns\<close>

text \<open>
  \<^verbatim>\<open>path(route, view, name=...)\<close> with a callable view makes
  \<^verbatim>\<open>URLPattern(RoutePattern(route, name=name, is_endpoint=True), view, None, name)\<close>. The
  record holds the fields of both objects; the route is compiled when the pattern is made.
\<close>

record url_pattern =
  route :: string
  regex :: regex
  converters :: "(string \<times> converter) list"
  callback :: view
  name :: string

definition path :: "end_anchor \<Rightarrow> string \<Rightarrow> view \<Rightarrow> string \<Rightarrow> error + url_pattern" where
  "path a rt v nm =
     (case route_to_regex a rt True of
        Inl e \<Rightarrow> Inl e
      | Inr (rx, cs) \<Rightarrow>
          Inr \<lparr>route = rt, regex = rx, converters = cs, callback = v, name = nm\<rparr>)"

subsection \<open>The module\<close>

text \<open>
  The body of \<^verbatim>\<open>urls.py\<close>, as a function of the names its \<^verbatim>\<open>from ... import\<close>
  lines bind, in the order of those lines: \<^verbatim>\<open>patterns\<close>, \<^verbatim>\<open>path\<close>,
  \<^verbatim>\<open>TemplateView\<close>. The attributes of the module \<^verbatim>\<open>views\<close> are the three handlers.
\<close>

definition urls_module :: "'p \<Rightarrow> (string \<Rightarrow> view \<Rightarrow> string \<Rightarrow> 'u) \<Rightarrow> 't \<Rightarrow> 'u list" where
  "urls_module patterns_import path_import TemplateView_import =
     [path_import ''<int:iid>/'' views_index ''ol3-viewer-index'',
      path_import ''plugin/<int:iid>/'' views_plugin ''ol3-viewer-plugin'',
      path_import ''plugin-debug/<int:iid>/'' views_plugin_debug ''ol3-viewer-plugin-debug'']"

text \<open>
  A list display evaluates its items from left to right; the first call that raises ends
  the evaluation of the module.
\<close>

fun list_display :: "(error + 'a) list \<Rightarrow> error + 'a list" where
  "list_display [] = Inr []"
| "list_display (Inl e # xs) = Inl e"
| "list_display (Inr x # xs) = (case list_display xs of Inl e \<Rightarrow> Inl e | Inr ys \<Rightarrow> Inr (x # ys))"

text \<open>
  The table under the framework's \<^verbatim>\<open>path\<close>. The two imports the body never reads are
  bound to the unit value.
\<close>

definition urlpatterns :: "end_anchor \<Rightarrow> error + url_pattern list" where
  "urlpatterns a = list_display (urls_module () (path a) ())"

subsection \<open>Resolving a path (\<^verbatim>\<open>RoutePattern.match\<close>, \<^verbatim>\<open>URLResolver.resolve\<close>)\<close>

text \<open>
  \<^verbatim>\<open>
  def match(self, path):
      match = self.regex.search(path)
      if match:
          kwargs = match.groupdict()
          for key, value in kwargs.items():
              converter = self.converters[key]
              try:
                  kwargs[key] = converter.to_python(value)
              except ValueError:
                  return None
          return path[match.end():], (), kwargs
      return None
  \<close>
  Every group of a compiled route has its converter (both come from one parse), so the
  lookup \<^verbatim>\<open>self.converters[key]\<close> is written without its \<^verbatim>\<open>KeyError\<close>.
\<close>

fun convert_kwargs ::
  "(string \<times> converter) list \<Rightarrow> (string \<times> string) list \<Rightarrow> (string \<times> pyval) list option" where
  "convert_kwargs cs [] = Some []"
| "convert_kwargs cs ((key, text) # groups) =
     (case map_of cs key of
        None \<Rightarrow> None
      | Some cv \<Rightarrow>
          (case to_python cv text of
             None \<Rightarrow> None
           | Some v \<Rightarrow> map_option ((#) (key, v)) (convert_kwargs cs groups)))"

definition pattern_match :: "url_pattern \<Rightarrow> string \<Rightarrow> (string \<times> pyval) list option" where
  "pattern_match u p =
     (case rx_search (regex u) p of
        None \<Rightarrow> None
      | Some groups \<Rightarrow> convert_kwargs (converters u) groups)"

text \<open>
  What the resolver hands to the request handler: the view, its keyword arguments and
  the name of the route.
\<close>

record resolver_match =
  func :: view
  kwargs :: "(string \<times> pyval) list"
  url_name :: string

text \<open>The patterns are tried in the order of the list; the first that matches wins.\<close>

fun resolve :: "url_pattern list \<Rightarrow> string \<Rightarrow> error + resolver_match" where
  "resolve [] p = Inl Resolver404"
| "resolve (u # us) p =
     (case pattern_match u p of
        Some kw \<Rightarrow> Inr \<lparr>func = callback u, kwargs = kw, url_name = name u\<rparr>
      | None \<Rightarrow> resolve us p)"

definition urlconf_resolve :: "end_anchor \<Rightarrow> string \<Rightarrow> error + resolver_match" where
  "urlconf_resolve a p = (case urlpatterns a of Inl e \<Rightarrow> Inl e | Inr us \<Rightarrow> resolve us p)"

subsection \<open>Generating a URL (\<^verbatim>\<open>URLResolver._reverse_with_prefix\<close>)\<close>









subsection \<open>Closed forms for routes with one integer parameter\<close>

text \<open>
  These definitions are not part of the program: they state, in closed form, what the
  lemmas below prove the definitions above to compute for a route \<^verbatim>\<open>pre<int:iid>/\<close>.
  \<open>int_tail a s\<close>: the text \<open>s\<close> is a non-empty run of digits and a slash, up to the end
  as the anchor \<open>a\<close> reads it. \<open>int_route a pre\<close> is the compiled expression of the
  route, \<open>int_pattern\<close> the pattern \<^verbatim>\<open>path\<close> makes of it, and \<open>route_match\<close> the result
  of matching a path against it. \<open>capture_groups\<close> lists the named groups of a compiled
  route, in their order.
\<close>

definition int_tail :: "end_anchor \<Rightarrow> string \<Rightarrow> bool" where
  "int_tail a s = (takeWhile isdigit s \<noteq> [] \<and>
      (dropWhile isdigit s = ''/'' \<or> (a = Dollar \<and> dropWhile isdigit s = ''/'' @ [newline])))"

definition int_route :: "end_anchor \<Rightarrow> string \<Rightarrow> regex" where
  "int_route a pre = [Caret, Escaped pre, Named_group ''iid'' IntConverter, Escaped ''/'', End_anchor a]"

definition int_pattern :: "end_anchor \<Rightarrow> string \<Rightarrow> view \<Rightarrow> string \<Rightarrow> url_pattern" where
  "int_pattern a pre v nm =
     \<lparr>route = pre @ ''<int:iid>/'', regex = int_route a pre,
      converters = [(''iid'', IntConverter)], callback = v, name = nm\<rparr>"

definition route_match :: "end_anchor \<Rightarrow> string \<Rightarrow> string \<Rightarrow> (string \<times> pyval) list option" where
  "route_match a pre p =
     (if take (length pre) p = pre \<and> int_tail a (drop (length pre) p)
      then Some [(''iid'', PyInt (int (decimal (takeWhile isdigit (drop (length pre) p)))))]
      else None)"

definition capture_groups :: "regex \<Rightarrow> (string \<times> converter) list" where
  "capture_groups r = concat (map (\<lambda>part. case part of Named_group n cv \<Rightarrow> [(n, cv)] | _ \<Rightarrow> []) r)"

section \<open>How the three routes match\<close>

subsection \<open>The first success of a list of attempts\<close>

lemma first_some_none: "(\<And>x. x \<in> set xs \<Longrightarrow> f x = None) \<Longrightarrow> first_some (map f xs) = None"
  by (induction xs) auto

lemma first_some_only:
  "m \<in> set xs \<Longrightarrow> (\<And>x. x \<in> set xs \<Longrightarrow> x \<noteq> m \<Longrightarrow> f x = None) \<Longrightarrow> first_some (map f xs) = f m"
proof (induction xs)
  case Nil
  then show ?case by simp
next
  case (Cons x xs)
  show ?case
  proof (cases "x = m")
    case True
    show ?thesis
    proof (cases "f m")
      case None
      have "\<And>y. y \<in> set xs \<Longrightarrow> f y = None"
        using Cons.prems(2) None by (metis list.set_intros(2))
      then have "first_some (map f xs) = None" by (rule first_some_none)
      with True None show ?thesis by simp
    next
      case (Some r)
      with True show ?thesis by simp
    qed
  next
    case False
    then have "f x = None" using Cons.prems(2) by simp
    moreover have "m \<in> set xs" using Cons.prems(1) False by auto
    ultimately show ?thesis using Cons.IH Cons.prems(2) by simp
  qed
qed

lemma match_tail:
  "match_here [Escaped ''/'', End_anchor a] b r =
     (if r = ''/'' \<or> (a = Dollar \<and> r = ''/'' @ [newline]) then Some [] else None)"
  by (cases a; cases r; cases "tl r"; cases "tl (tl r)") (auto simp: newline_def)

lemma take_all_digits:
  assumes "k \<le> length s"
  shows "list_all isdigit (take k s) \<longleftrightarrow> k \<le> length (takeWhile isdigit s)"
proof
  assume a: "list_all isdigit (take k s)"
  show "k \<le> length (takeWhile isdigit s)"
  proof (rule ccontr)
    assume "\<not> k \<le> length (takeWhile isdigit s)"
    then have lt: "length (takeWhile isdigit s) < k" by simp
    with assms have "length (takeWhile isdigit s) < length s" by simp
    then have "\<not> isdigit (s ! length (takeWhile isdigit s))"
      by (rule nth_length_takeWhile)
    moreover have "isdigit (take k s ! length (takeWhile isdigit s))"
      using a lt assms by (simp add: list_all_length)
    ultimately show False using lt by simp
  qed
next
  assume "k \<le> length (takeWhile isdigit s)"
  then have "take k s = take k (takeWhile isdigit s)"
    by (metis takeWhile_dropWhile_id take_append diff_is_0_eq' append_Nil2 take0)
  then show "list_all isdigit (take k s)"
    by (metis list_all_iff set_takeWhileD in_set_takeD)
qed

subsection \<open>An integer parameter followed by a slash\<close>

lemma not_digit_slash: "\<not> isdigit (CHR ''/'')"
  by (simp add: isdigit_def)

lemma match_int_group:
  "match_here [Named_group n IntConverter, Escaped ''/'', End_anchor a] b s =
     (if int_tail a s then Some [(n, takeWhile isdigit s)] else None)"
proof -
  define m where "m = length (takeWhile isdigit s)"
  define f where "f = (\<lambda>k. if converter_regex IntConverter (take k s)
                 then map_option ((#) (n, take k s))
                        (match_here [Escaped ''/'', End_anchor a] False (drop k s))
                 else None)"
  define ks where "ks = rev [1..<Suc (length s)]"
  have lhs: "match_here [Named_group n IntConverter, Escaped ''/'', End_anchor a] b s
               = first_some (map f ks)"
    unfolding f_def ks_def by simp
  have ks: "k \<in> set ks \<longleftrightarrow> 1 \<le> k \<and> k \<le> length s" for k
    unfolding ks_def by (auto simp del: upt_Suc)
  have m_le: "m \<le> length s"
    unfolding m_def by (rule length_takeWhile_le)
  have other: "f k = None" if "k \<in> set ks" "k \<noteq> m" for k
  proof (cases "k < m")
    case True
    then have "k < length s"
      using m_le by simp
    then have d: "drop k s = s ! k # drop (Suc k) s"
      by (simp add: Cons_nth_drop_Suc)
    have "isdigit (takeWhile isdigit s ! k)"
      using True unfolding m_def by (metis nth_mem set_takeWhileD)
    then have "isdigit (s ! k)"
      using True unfolding m_def by (simp add: takeWhile_nth)
    then have "s ! k \<noteq> CHR ''/''"
      using not_digit_slash by auto
    then show ?thesis
      unfolding f_def by (simp add: d)
  next
    case False
    with that have "\<not> k \<le> m" by simp
    moreover have "k \<le> length s" using that ks by simp
    ultimately have "\<not> list_all isdigit (take k s)"
      unfolding m_def by (simp add: take_all_digits)
    then show ?thesis unfolding f_def by simp
  qed
  show ?thesis
  proof (cases "m = 0")
    case True
    have "f k = None" if "k \<in> set ks" for k
    proof -
      from that ks have "k \<noteq> m" using True by simp
      with that show ?thesis by (rule other)
    qed
    then have "first_some (map f ks) = None"
      by (rule first_some_none)
    moreover have "\<not> int_tail a s"
      using True unfolding m_def int_tail_def by simp
    ultimately show ?thesis
      using lhs by simp
  next
    case False
    then have mem: "m \<in> set ks"
      using m_le ks by simp
    have "first_some (map f ks) = f m"
      using mem other by (rule first_some_only)
    moreover have t: "take m s = takeWhile isdigit s"
      unfolding m_def by (metis takeWhile_eq_take)
    moreover have d: "drop m s = dropWhile isdigit s"
      unfolding m_def by (metis dropWhile_eq_drop)
    moreover have all: "list_all isdigit (takeWhile isdigit s)"
      by (metis list_all_iff set_takeWhileD)
    moreover have ne: "takeWhile isdigit s \<noteq> []"
      using False unfolding m_def by simp
    ultimately have "first_some (map f ks) =
        map_option ((#) (n, takeWhile isdigit s))
          (match_here [Escaped ''/'', End_anchor a] False (dropWhile isdigit s))"
      unfolding f_def by simp
    then show ?thesis
      unfolding lhs using ne by (simp only: match_tail int_tail_def) auto
  qed
qed

lemma rx_search_caret: "rx_search (Caret # ps) s = match_here ps True s"
proof -
  let ?f = "\<lambda>i. match_here (Caret # ps) (i = 0) (drop i s)"
  have "[0..<Suc (length s)] = 0 # [1..<Suc (length s)]"
    by (simp add: upt_conv_Cons del: upt_Suc)
  then have "rx_search (Caret # ps) s = first_some (?f 0 # map ?f [1..<Suc (length s)])"
    by (simp add: rx_search_def del: upt_Suc)
  moreover have "\<And>i. i \<in> set [1..<Suc (length s)] \<Longrightarrow> ?f i = None"
    by (simp del: upt_Suc)
  then have "first_some (map ?f [1..<Suc (length s)]) = None"
    by (rule first_some_none)
  ultimately show ?thesis
    by (cases "match_here ps True s") simp_all
qed

lemma rx_search_int_route:
  "rx_search (int_route a pre) p =
     (if take (length pre) p = pre \<and> int_tail a (drop (length pre) p)
      then Some [(''iid'', takeWhile isdigit (drop (length pre) p))] else None)"
  unfolding int_route_def rx_search_caret
  by (simp add: match_int_group del: match_here.simps(4))

lemma route_to_regex_index:
  "route_to_regex a ''<int:iid>/'' True = Inr (int_route a [], [(''iid'', IntConverter)])"
  by (simp add: route_to_regex_def route_to_parts.simps match_component_def match_parameter_def
      isidentifier_def isalpha_def isdigit_def get_converter_def int_route_def)

lemma route_to_regex_plugin:
  "route_to_regex a ''plugin/<int:iid>/'' True = Inr (int_route a ''plugin/'', [(''iid'', IntConverter)])"
  by (simp add: route_to_regex_def route_to_parts.simps match_component_def match_parameter_def
      isidentifier_def isalpha_def isdigit_def get_converter_def int_route_def)

lemma route_to_regex_plugin_debug:
  "route_to_regex a ''plugin-debug/<int:iid>/'' True =
     Inr (int_route a ''plugin-debug/'', [(''iid'', IntConverter)])"
  by (simp add: route_to_regex_def route_to_parts.simps match_component_def match_parameter_def
      isidentifier_def isalpha_def isdigit_def get_converter_def int_route_def)

lemma urlpatterns_eq:
  "urlpatterns a =
     Inr [int_pattern a [] views_index ''ol3-viewer-index'',
          int_pattern a ''plugin/'' views_plugin ''ol3-viewer-plugin'',
          int_pattern a ''plugin-debug/'' views_plugin_debug ''ol3-viewer-plugin-debug'']"
  by (simp add: urlpatterns_def urls_module_def path_def int_pattern_def
      route_to_regex_index route_to_regex_plugin route_to_regex_plugin_debug)

lemma list_all_takeWhile: "list_all P (takeWhile P xs)"
  by (metis list_all_iff set_takeWhileD)

lemma pattern_match_int_pattern:
  "pattern_match (int_pattern a pre v nm) p = route_match a pre p"
  by (simp add: pattern_match_def int_pattern_def rx_search_int_route route_match_def
      int_tail_def list_all_takeWhile)

lemma int_pattern_sel:
  "callback (int_pattern a pre v nm) = v" "name (int_pattern a pre v nm) = nm"
  "route (int_pattern a pre v nm) = pre @ ''<int:iid>/''" "regex (int_pattern a pre v nm) = int_route a pre"
  "converters (int_pattern a pre v nm) = [(''iid'', IntConverter)]"
  by (simp_all add: int_pattern_def)

lemma urlconf_resolve_eq:
  "urlconf_resolve a p =
     (case route_match a [] p of
        Some kw \<Rightarrow> Inr \<lparr>func = views_index, kwargs = kw, url_name = ''ol3-viewer-index''\<rparr>
      | None \<Rightarrow>
     (case route_match a ''plugin/'' p of
        Some kw \<Rightarrow> Inr \<lparr>func = views_plugin, kwargs = kw, url_name = ''ol3-viewer-plugin''\<rparr>
      | None \<Rightarrow>
     (case route_match a ''plugin-debug/'' p of
        Some kw \<Rightarrow> Inr \<lparr>func = views_plugin_debug, kwargs = kw, url_name = ''ol3-viewer-plugin-debug''\<rparr>
      | None \<Rightarrow> Inl Resolver404)))"
  by (simp add: urlconf_resolve_def urlpatterns_eq pattern_match_int_pattern int_pattern_sel
      split: option.splits)


lemma int_tail_shape:
  assumes "int_tail a s"
  shows "\<exists>ds. ds \<noteq> [] \<and> list_all isdigit ds \<and> ds = takeWhile isdigit s \<and>
           (s = ds @ ''/'' \<or> (a = Dollar \<and> s = ds @ ''/'' @ [newline]))"
proof -
  have "s = takeWhile isdigit s @ dropWhile isdigit s" by simp
  with assms show ?thesis
    unfolding int_tail_def by (metis list_all_takeWhile)
qed

subsection \<open>A path of a route's own shape matches it\<close>




subsection \<open>What a match says about the path\<close>


lemma route_match_shape:
  assumes "route_match a pre p = Some kw"
  shows "\<exists>ds. ds \<noteq> [] \<and> list_all isdigit ds \<and> kw = [(''iid'', PyInt (int (decimal ds)))] \<and>
           (p = pre @ ds @ ''/'' \<or> (a = Dollar \<and> p = pre @ ds @ ''/'' @ [newline]))"
proof -
  from assms have t: "take (length pre) p = pre" and i: "int_tail a (drop (length pre) p)"
    and kw: "kw = [(''iid'', PyInt (int (decimal (takeWhile isdigit (drop (length pre) p)))))]"
    by (auto simp: route_match_def split: if_splits)
  have p: "p = pre @ drop (length pre) p"
    using t by (metis append_take_drop_id)
  from int_tail_shape [OF i] obtain ds where ds: "ds \<noteq> []" "list_all isdigit ds"
    "ds = takeWhile isdigit (drop (length pre) p)"
    and sh: "drop (length pre) p = ds @ ''/'' \<or> (a = Dollar \<and> drop (length pre) p = ds @ ''/'' @ [newline])"
    by blast
  from sh p have "p = pre @ ds @ ''/'' \<or> (a = Dollar \<and> p = pre @ ds @ ''/'' @ [newline])"
    by metis
  with ds kw show ?thesis by blast
qed





subsection \<open>The resolver on a list of patterns\<close>






subsection \<open>Decimal numerals: \<^verbatim>\<open>int\<close> undoes \<^verbatim>\<open>str\<close>\<close>









subsection \<open>Paths without a slash after the prefix\<close>



subsection \<open>At most one route matches a path\<close>




subsection \<open>The first match of a list in which at most one pattern matches\<close>



subsection \<open>Generated URLs\<close>

















subsection \<open>Paths of the three shapes resolve\<close>


subsection \<open>The parameters of the three routes\<close>

lemma search_component_routes:
  "search_component ''<int:iid>/'' = Some ([], Some ''int'', ''iid'', ''/'')"
  "search_component ''plugin/<int:iid>/'' = Some (''plugin/'', Some ''int'', ''iid'', ''/'')"
  "search_component ''plugin-debug/<int:iid>/'' = Some (''plugin-debug/'', Some ''int'', ''iid'', ''/'')"
  "search_component ''/'' = None"
  by (simp_all add: match_component_def match_parameter_def)

lemma urlconf_resolve_kwargs:
  assumes "urlconf_resolve a p = Inr m"
  shows "\<exists>n. kwargs m = [(''iid'', PyInt n)]"
proof -
  from assms obtain pre where "route_match a pre p = Some (kwargs m)"
    by (auto simp: urlconf_resolve_eq split: option.splits)
  from route_match_shape [OF this] show ?thesis by blast
qed

section \<open>The claims\<close>








text \<open>
  C4. Each of the three route strings has exactly one parameter, written \<^verbatim>\<open><int:iid>\<close>:
  the parser finds the component with converter \<^verbatim>\<open>int\<close> and name \<^verbatim>\<open>iid\<close> and nothing
  after it but the slash; \<^verbatim>\<open>int\<close> is the integer converter; the compiled patterns have
  the one group \<open>iid\<close> with that converter; and a resolved path carries the one keyword
  argument \<open>iid\<close>, an integer, whichever of the three routes matched.
\<close>

theorem C4_one_integer_parameter:
  "urls_module p (\<lambda>rt v nm. search_component rt) t =
      [Some ([], Some ''int'', ''iid'', ''/''),
       Some (''plugin/'', Some ''int'', ''iid'', ''/''),
       Some (''plugin-debug/'', Some ''int'', ''iid'', ''/'')]
   \<and> search_component ''/'' = None
   \<and> get_converter ''int'' = Some IntConverter
   \<and> (\<exists>us. urlpatterns a = Inr us
          \<and> map converters us = replicate 3 [(''iid'', IntConverter)]
          \<and> map (\<lambda>u. capture_groups (regex u)) us = replicate 3 [(''iid'', IntConverter)])
   \<and> (urlconf_resolve a q = Inr m \<longrightarrow> (\<exists>n. kwargs m = [(''iid'', PyInt n)]))"
proof -
  have m1: "urls_module p (\<lambda>rt v nm. search_component rt) t =
      [Some ([], Some ''int'', ''iid'', ''/''),
       Some (''plugin/'', Some ''int'', ''iid'', ''/''),
       Some (''plugin-debug/'', Some ''int'', ''iid'', ''/'')]"
    unfolding urls_module_def by (simp only: search_component_routes)
  have m2: "\<exists>us. urlpatterns a = Inr us
          \<and> map converters us = replicate 3 [(''iid'', IntConverter)]
          \<and> map (\<lambda>u. capture_groups (regex u)) us = replicate 3 [(''iid'', IntConverter)]"
    by (simp add: urlpatterns_eq int_pattern_sel int_route_def capture_groups_def numeral_3_eq_3)
  have m3: "get_converter ''int'' = Some IntConverter"
    by (simp add: get_converter_def)
  from m1 m2 m3 search_component_routes(4) urlconf_resolve_kwargs show ?thesis
    by blast
qed

text \<open>The parameters of the table, and the arguments of \<^verbatim>\<open>plugin/42/\<close>.\<close>

theorem C4_one_integer_parameter_witness:
  "urls_module () (\<lambda>rt v nm. search_component rt) () =
      [Some ([], Some ''int'', ''iid'', ''/''),
       Some (''plugin/'', Some ''int'', ''iid'', ''/''),
       Some (''plugin-debug/'', Some ''int'', ''iid'', ''/'')]
   \<and> urlconf_resolve End_of_string ''plugin/42/'' =
       Inr \<lparr>func = views_plugin, kwargs = [(''iid'', PyInt 42)], url_name = ''ol3-viewer-plugin''\<rparr>
   \<and> (\<exists>n. [(''iid'', PyInt 42)] = [(''iid'', PyInt n)])"
proof -
  let ?m = "\<lparr>func = views_plugin, kwargs = [(''iid'', PyInt 42)], url_name = ''ol3-viewer-plugin''\<rparr>"
  have r: "urlconf_resolve End_of_string ''plugin/42/'' = Inr ?m"
    by (simp add: urlconf_resolve_eq route_match_def int_tail_def isdigit_def decimal_def digit_val_def)
  note c = C4_one_integer_parameter [of "()" "()" End_of_string "''plugin/42/''" ?m]
  from c r have "\<exists>n. kwargs ?m = [(''iid'', PyInt n)]" by blast
  with c r show ?thesis by simp
qed

text \<open>
  C5. The table has exactly three entries, whatever \<^verbatim>\<open>path\<close> returns for each; they
  are the three routes with the handlers \<^verbatim>\<open>views.index\<close>, \<^verbatim>\<open>views.plugin\<close> and
  \<^verbatim>\<open>views.plugin_debug\<close>, in this order; the routes are distinct and so are the handler
  references; and under the framework's \<^verbatim>\<open>path\<close> the module evaluates to three
  patterns with these routes, handlers and names.
\<close>

theorem C5_three_routes:
  "length (urls_module p f t) = 3
   \<and> urls_module p (\<lambda>rt v nm. (rt, v, nm)) t =
        [(''<int:iid>/'', views_index, ''ol3-viewer-index''),
         (''plugin/<int:iid>/'', views_plugin, ''ol3-viewer-plugin''),
         (''plugin-debug/<int:iid>/'', views_plugin_debug, ''ol3-viewer-plugin-debug'')]
   \<and> distinct (urls_module p (\<lambda>rt v nm. rt) t)
   \<and> distinct (urls_module p (\<lambda>rt v nm. v) t)
   \<and> (\<exists>us. urlpatterns a = Inr us \<and> length us = 3
          \<and> map route us = [''<int:iid>/'', ''plugin/<int:iid>/'', ''plugin-debug/<int:iid>/'']
          \<and> map callback us = [views_index, views_plugin, views_plugin_debug]
          \<and> map name us = [''ol3-viewer-index'', ''ol3-viewer-plugin'', ''ol3-viewer-plugin-debug''])"
  by (simp add: urls_module_def urlpatterns_eq int_pattern_sel)

text \<open>The table under the unit imports and the \<^verbatim>\<open>\Z\<close> anchor.\<close>

theorem C5_three_routes_witness:
  "length (urls_module () (path End_of_string) ()) = 3
   \<and> urls_module () (\<lambda>rt v nm. (rt, v, nm)) () =
        [(''<int:iid>/'', views_index, ''ol3-viewer-index''),
         (''plugin/<int:iid>/'', views_plugin, ''ol3-viewer-plugin''),
         (''plugin-debug/<int:iid>/'', views_plugin_debug, ''ol3-viewer-plugin-debug'')]
   \<and> distinct (urls_module () (\<lambda>rt v nm. rt) ())
   \<and> distinct (urls_module () (\<lambda>rt v nm. v) ())
   \<and> (\<exists>us. urlpatterns End_of_string = Inr us \<and> length us = 3
          \<and> map route us = [''<int:iid>/'', ''plugin/<int:iid>/'', ''plugin-debug/<int:iid>/'']
          \<and> map callback us = [views_index, views_plugin, views_plugin_debug]
          \<and> map name us = [''ol3-viewer-index'', ''ol3-viewer-plugin'', ''ol3-viewer-plugin-debug''])"
  by (rule C5_three_routes [of "()" "path End_of_string" "()" End_of_string])











end
